theory Spec2Isabelle
  imports Complex_Main "HOL-Library.Sublist"
begin

section \<open>JavaScript strings\<close>

text \<open>
  A JavaScript string is modelled as a \<^typ>\<open>string\<close>: a list of code units, here those
  below 256.  Among them the white space and line terminator code units that
  \<^verbatim>\<open>String.prototype.trim\<close> removes are TAB, LF, VT, FF, CR, SP and NBSP.
\<close>

definition isWhiteSpace :: "char \<Rightarrow> bool" where
  "isWhiteSpace c = (c \<in> set [CHR 0x09, CHR 0x0A, CHR 0x0B, CHR 0x0C, CHR 0x0D, CHR 0x20, CHR 0xA0])"

definition trim :: "string \<Rightarrow> string" where
  "trim s = rev (dropWhile isWhiteSpace (rev (dropWhile isWhiteSpace s)))"

definition startsWith :: "string \<Rightarrow> string \<Rightarrow> bool" where
  "startsWith s p = prefix p s"

definition substring :: "string \<Rightarrow> nat \<Rightarrow> string" where
  "substring s i = drop i s"

text \<open>
  \<^verbatim>\<open>s.split(sep)\<close>: the pieces of \<open>s\<close> between the occurrences of \<open>sep\<close>, found from
  left to right without overlap; an empty separator splits into code units.
\<close>

function split :: "string \<Rightarrow> string \<Rightarrow> string list" where
  "split s [] = map (\<lambda>c. [c]) s"
| "split [] (d # ds) = [[]]"
| "split (c # cs) (d # ds) =
     (if prefix (d # ds) (c # cs) then [] # split (drop (length ds) cs) (d # ds)
      else (case split cs (d # ds) of [] \<Rightarrow> [[c]] | x # xs \<Rightarrow> (c # x) # xs))"
  by pat_completeness auto
termination
  by (relation "measure (\<lambda>(s, sep). length s)") auto

section \<open>JavaScript numbers\<close>

text \<open>
  A Number is modelled by a decimal: \<open>Finite m e\<close> stands for \<open>m * 10 ^ e\<close>, and
  \<open>mkNumber\<close> builds the representation without trailing zeros in the mantissa, which is
  the digit string and exponent that \<^verbatim>\<open>Number::toString\<close> prints.  Arithmetic on decimals
  is exact here; it coincides with IEEE doubles for values of at most 15 significant
  digits whose products stay below \<open>2 ^ 53\<close>.  The sign of zero is not modelled.
\<close>

datatype number = NaN | Infinity bool | Finite int int

function normalizeDecimal :: "int \<Rightarrow> int \<Rightarrow> int \<times> int" where
  "normalizeDecimal m e =
     (if m = 0 then (0, 0)
      else if m mod 10 = 0 then normalizeDecimal (m div 10) (e + 1)
      else (m, e))"
  by pat_completeness auto
termination
  by (relation "measure (\<lambda>(m, e). nat \<bar>m\<bar>)") auto

definition mkNumber :: "int \<Rightarrow> int \<Rightarrow> number" where
  "mkNumber m e = (case normalizeDecimal m e of (m', e') \<Rightarrow> Finite m' e')"

text \<open>The operator \<^verbatim>\<open>*\<close> on Numbers.\<close>

fun multiply :: "number \<Rightarrow> number \<Rightarrow> number" where
  "multiply NaN y = NaN"
| "multiply x NaN = NaN"
| "multiply (Infinity a) (Infinity b) = Infinity (a \<noteq> b)"
| "multiply (Infinity a) (Finite m e) = (if m = 0 then NaN else Infinity (a \<noteq> (m < 0)))"
| "multiply (Finite m e) (Infinity b) = (if m = 0 then NaN else Infinity ((m < 0) \<noteq> b))"
| "multiply (Finite m e) (Finite m' e') = mkNumber (m * m') (e + e')"

definition isDigit :: "char \<Rightarrow> bool" where
  "isDigit c = (c \<in> set ''0123456789'')"

definition isHexDigit :: "char \<Rightarrow> bool" where
  "isHexDigit c = (c \<in> set ''0123456789abcdefABCDEF'')"

definition digitValue :: "char \<Rightarrow> nat" where
  "digitValue c =
     (let n = (of_char c :: nat)
      in if 48 \<le> n \<and> n \<le> 57 then n - 48 else if 97 \<le> n \<and> n \<le> 102 then n - 87 else n - 55)"

definition radixValue :: "nat \<Rightarrow> string \<Rightarrow> nat" where
  "radixValue r ds = foldl (\<lambda>a c. r * a + digitValue c) 0 ds"

text \<open>
  \<^verbatim>\<open>parseInt(string)\<close> with no radix: leading white space is skipped, then an optional
  sign, an optional \<^verbatim>\<open>0x\<close> prefix, and the longest run of digits; no digit gives NaN.
  The value is the exact integer the digits denote: the rounding to a double that
  JavaScript applies beyond \<open>2 ^ 53\<close> is not modelled.
\<close>

definition parseInt :: "string \<Rightarrow> number" where
  "parseInt inputString =
     (let S = dropWhile isWhiteSpace inputString;
          neg = startsWith S ''-'';
          S1 = (if startsWith S ''+'' \<or> startsWith S ''-'' then drop 1 S else S);
          hex = (startsWith S1 ''0x'' \<or> startsWith S1 ''0X'');
          S2 = (if hex then drop 2 S1 else S1);
          Z = takeWhile (if hex then isHexDigit else isDigit) S2
      in if Z = [] then NaN
         else mkNumber ((if neg then - 1 else 1) * int (radixValue (if hex then 16 else 10) Z)) 0)"

text \<open>The decimal digits of a natural number, most significant first.\<close>

fun digitsOf :: "nat \<Rightarrow> string" where
  "digitsOf n =
     (if n < 10 then [char_of (48 + n)] else digitsOf (n div 10) @ [char_of (48 + n mod 10)])"

text \<open>
  \<^verbatim>\<open>Number::toString\<close> in radix 10.  With \<open>k\<close> digits \<open>ds\<close> and the decimal point after
  digit \<open>n\<close>: plain digits for \<open>k \<le> n \<le> 21\<close>, a fraction for \<open>0 < n \<le> 21\<close> and for
  \<open>-6 < n \<le> 0\<close>, exponential notation otherwise.
\<close>

definition numberToString :: "number \<Rightarrow> string" where
  "numberToString x =
     (case x of
        NaN \<Rightarrow> ''NaN''
      | Infinity neg \<Rightarrow> (if neg then ''-Infinity'' else ''Infinity'')
      | Finite m e \<Rightarrow>
          (case normalizeDecimal m e of
             (s, e') \<Rightarrow>
               if s = 0 then ''0''
               else
                 (let ds = digitsOf (nat \<bar>s\<bar>);
                      k = int (length ds);
                      n = k + e';
                      ex = n - 1;
                      es = (if ex < 0 then ''-'' else ''+'') @ digitsOf (nat \<bar>ex\<bar>);
                      body =
                        (if k \<le> n \<and> n \<le> 21 then ds @ replicate (nat (n - k)) (CHR ''0'')
                         else if 0 < n \<and> n \<le> 21 then take (nat n) ds @ ''.'' @ drop (nat n) ds
                         else if - 6 < n \<and> n \<le> 0 then ''0.'' @ replicate (nat (- n)) (CHR ''0'') @ ds
                         else if k = 1 then ds @ ''e'' @ es
                         else take 1 ds @ ''.'' @ drop 1 ds @ ''e'' @ es)
                  in (if s < 0 then ''-'' else []) @ body)))"

section \<open>The workout log: \<^verbatim>\<open>calculateCaloriesBurnt\<close> and \<^verbatim>\<open>addWorkout\<close>\<close>

text \<open>
  The object \<^verbatim>\<open>addWorkout\<close> expects of its call \<^verbatim>\<open>parseWorkoutLine(parts)\<close>, the same
  object once \<^verbatim>\<open>addWorkout\<close> has set its category, and the document handed to
  \<^verbatim>\<open>Workout.insertMany\<close>.
\<close>

record details =
  workoutName :: string
  sets :: number
  reps :: number
  weight :: number
  duration :: number

record workout = details +
  category :: string

record workout_doc = workout +
  caloriesBurned :: number
  user :: string

datatype js_exception = ReferenceError

text \<open>
  The call \<^verbatim>\<open>parseWorkoutLine(parts)\<close> (controllers/User.js, line 249).  The module
  binds no such name: it is neither imported nor declared, and the only text that
  defines it (lines 346 to 360) is inside a comment.  Evaluating the call therefore
  raises a \<^verbatim>\<open>ReferenceError\<close>, whatever the lines are.
\<close>

definition parseWorkoutLine :: "string list \<Rightarrow> js_exception + details option" where
  "parseWorkoutLine parts = Inl ReferenceError"

text \<open>
  \<^verbatim>\<open>calculateCaloriesBurnt\<close>: \<^verbatim>\<open>parseInt\<close> is applied to Numbers, so each is first
  converted to its string.
\<close>

definition calculateCaloriesBurnt :: "workout \<Rightarrow> number" where
  "calculateCaloriesBurnt workoutDetails =
     (let durationInMinutes = parseInt (numberToString (duration workoutDetails));
          weightInKg = parseInt (numberToString (weight workoutDetails));
          caloriesBurntPerMinute = Finite 5 0
      in multiply (multiply durationInMinutes caloriesBurntPerMinute) weightInKg)"

text \<open>
  The errors handed to \<^verbatim>\<open>next\<close>: \<open>CreateError status message\<close> for
  \<^verbatim>\<open>createError(status, message)\<close>, with the ordinal of the message template kept as a
  number, and \<open>Thrown\<close> for an exception caught by the handler's \<^verbatim>\<open>catch\<close>.

  \<^item> \<open>Unauthorized\<close>: "Unauthorized"
  \<^item> \<open>WorkoutStringMissing\<close>: "Workout string is missing"
  \<^item> \<open>MissingDetails n\<close>: "Workout string is missing details for \<open>n\<close>th workout"
  \<^item> \<open>ProperFormat n\<close>: "Please enter proper format for \<open>n\<close>th workout"
  \<^item> \<open>NoValidWorkouts\<close>: "No valid workouts found in the workout string"
  \<^item> \<open>UserNotFound\<close>: "User not found"
\<close>

datatype message =
  Unauthorized | WorkoutStringMissing | MissingDetails nat | ProperFormat nat
  | NoValidWorkouts | UserNotFound

datatype error = CreateError nat message | Thrown js_exception

text \<open>What a handler does to its collaborators, in order.\<close>

datatype event =
  Next error
  | InsertMany "workout_doc list"
  | Json201 "workout list"

text \<open>The variables the \<^verbatim>\<open>forEach\<close> callback of \<^verbatim>\<open>addWorkout\<close> updates, and its calls of \<^verbatim>\<open>next\<close>.\<close>

record loop_state =
  count :: nat
  currentCategory :: string
  parsedWorkouts :: "workout list"
  nextCalls :: "error list"

text \<open>
  One call of the callback (lines 240 to 259).  Its \<^verbatim>\<open>return next(...)\<close> leaves the
  callback only: the result \<open>Inr\<close> is the state the loop goes on with.  \<open>Inl\<close> is an
  exception, which leaves the loop; the category is assigned before the call of
  \<^verbatim>\<open>parseWorkoutLine\<close> is evaluated.
\<close>

definition callback :: "loop_state \<Rightarrow> string \<Rightarrow> js_exception + loop_state" where
  "callback st line =
     (let st1 = st\<lparr>count := count st + 1\<rparr>
      in if startsWith line ''#'' then
           (let parts = map trim (split line [CHR 0x0A])
            in if length parts < 5 then
                 Inr (st1\<lparr>nextCalls := nextCalls st1 @ [CreateError 400 (MissingDetails (count st1))]\<rparr>)
               else
                 (let st2 = st1\<lparr>currentCategory := trim (substring (parts ! 0) 1)\<rparr>
                  in case parseWorkoutLine parts of
                       Inl ex \<Rightarrow> Inl ex
                     | Inr None \<Rightarrow>
                         Inr (st2\<lparr>nextCalls := nextCalls st2 @ [CreateError 400 (ProperFormat (count st2))]\<rparr>)
                     | Inr (Some workoutDetails) \<Rightarrow>
                         Inr (st2\<lparr>parsedWorkouts := parsedWorkouts st2 @
                           [details.extend workoutDetails (workout.fields (currentCategory st2))]\<rparr>)))
         else Inr (st1\<lparr>nextCalls := nextCalls st1 @ [CreateError 400 (MissingDetails (count st1))]\<rparr>))"

text \<open>\<^verbatim>\<open>eachWorkout.forEach\<close>: on an exception, the state before the call that raised it.\<close>

fun forEach :: "string list \<Rightarrow> loop_state \<Rightarrow> (js_exception \<times> loop_state) + loop_state" where
  "forEach [] st = Inr st"
| "forEach (line # rest) st =
     (case callback st line of
        Inl ex \<Rightarrow> Inl (ex, st)
      | Inr st' \<Rightarrow> forEach rest st')"

definition eachWorkout :: "string \<Rightarrow> string list" where
  "eachWorkout workoutString = map trim (split workoutString '';'')"

definition initialState :: loop_state where
  "initialState = \<lparr>count = 0, currentCategory = [], parsedWorkouts = [], nextCalls = []\<rparr>"

definition toAdd :: "string \<Rightarrow> workout \<Rightarrow> workout_doc" where
  "toAdd userId w =
     workout.extend w (workout_doc.fields (calculateCaloriesBurnt w) userId)"

text \<open>
  \<^verbatim>\<open>addWorkout\<close> (lines 223 to 281), with \<^verbatim>\<open>req.user?.id\<close> and \<^verbatim>\<open>req.body.workoutString\<close>
  as arguments.  The result lists the calls of \<^verbatim>\<open>next\<close>, \<^verbatim>\<open>Workout.insertMany\<close> and
  \<^verbatim>\<open>res.status(201).json\<close> in the order the handler makes them.
\<close>

definition addWorkout :: "string option \<Rightarrow> string \<Rightarrow> event list" where
  "addWorkout userId workoutString =
     (case userId of
        None \<Rightarrow> [Next (CreateError 401 Unauthorized)]
      | Some uid \<Rightarrow>
          if uid = [] then [Next (CreateError 401 Unauthorized)]
          else if workoutString = [] then [Next (CreateError 400 WorkoutStringMissing)]
          else
            (case forEach (eachWorkout workoutString) initialState of
               Inl (ex, st) \<Rightarrow> map Next (nextCalls st) @ [Next (Thrown ex)]
             | Inr st \<Rightarrow>
                 (let workoutsToAdd = map (toAdd uid) (parsedWorkouts st)
                  in if length workoutsToAdd = 0 then
                       map Next (nextCalls st) @ [Next (CreateError 400 NoValidWorkouts)]
                     else
                       map Next (nextCalls st) @
                         [InsertMany workoutsToAdd, Json201 (parsedWorkouts st)])))"

section \<open>The dashboard: \<^verbatim>\<open>getUserDashboard\<close>\<close>

text \<open>
  A stored workout, as the queries of the dashboard read it: its owner, its category, its
  calories (an integer) and its date in milliseconds since the epoch.
\<close>

record stored_workout =
  s_user :: string
  s_category :: string
  s_caloriesBurned :: int
  s_date :: int

record store =
  users :: "string list"
  workouts :: "stored_workout list"

text \<open>
  Dates are times in milliseconds since the epoch.  The server's time zone is a fixed
  offset \<open>tz\<close> (local time is UTC plus \<open>tz\<close> milliseconds); daylight saving changes are
  not modelled.
\<close>

definition msPerDay :: int where
  "msPerDay = 24 * 60 * 60 * 1000"

definition localDay :: "int \<Rightarrow> int \<Rightarrow> int" where
  "localDay tz t = (t + tz) div msPerDay"

text \<open>The day of the month of a day counted from 1 January 1970 (Gregorian calendar).\<close>

definition dayOfMonth :: "int \<Rightarrow> int" where
  "dayOfMonth day =
     (let z = day + 719468;
          era = z div 146097;
          doe = z - era * 146097;
          yoe = (doe - doe div 1460 + doe div 36524 - doe div 146096) div 365;
          doy = doe - (365 * yoe + yoe div 4 - yoe div 100);
          mp = (5 * doy + 2) div 153
      in doy - (153 * mp + 2) div 5 + 1)"

text \<open>\<^verbatim>\<open>date.getDate()\<close>.\<close>

definition getDate :: "int \<Rightarrow> int \<Rightarrow> int" where
  "getDate tz t = dayOfMonth (localDay tz t)"

text \<open>
  \<^verbatim>\<open>new Date(date.getFullYear(), date.getMonth(), date.getDate() + k)\<close>: local midnight
  \<open>k\<close> days after the start of the local day of \<open>date\<close> (a day number past the end of the
  month carries into the next month).
\<close>

definition newDate :: "int \<Rightarrow> int \<Rightarrow> int \<Rightarrow> int" where
  "newDate tz date k = (localDay tz date + k) * msPerDay - tz"

text \<open>The \<^verbatim>\<open>$match\<close> stage, and \<^verbatim>\<open>countDocuments\<close> with the same filter.\<close>

definition matchStage :: "stored_workout list \<Rightarrow> string \<Rightarrow> int \<Rightarrow> int \<Rightarrow> stored_workout list" where
  "matchStage ws uid gte lt = filter (\<lambda>w. s_user w = uid \<and> gte \<le> s_date w \<and> s_date w < lt) ws"

text \<open>\<^verbatim>\<open>$group\<close> with \<^verbatim>\<open>_id: null\<close>: one total when a document matched, no group otherwise.\<close>

definition groupNull :: "stored_workout list \<Rightarrow> int list" where
  "groupNull ms = (if ms = [] then [] else [sum_list (map s_caloriesBurned ms)])"

text \<open>
  \<^verbatim>\<open>$group\<close> by \<^verbatim>\<open>$dateToString\<close> with format \<^verbatim>\<open>%Y-%m-%d\<close> and no time zone, then \<^verbatim>\<open>$sort\<close>
  by \<^verbatim>\<open>_id\<close>: one total for each UTC date, in ascending order.  The UTC day number stands
  for the date string, which orders the same way.
\<close>

definition utcDate :: "stored_workout \<Rightarrow> int" where
  "utcDate w = s_date w div msPerDay"

definition groupByDate :: "stored_workout list \<Rightarrow> (int \<times> int) list" where
  "groupByDate ms =
     map (\<lambda>d. (d, sum_list (map s_caloriesBurned (filter (\<lambda>w. utcDate w = d) ms))))
       (sort (remdups (map utcDate ms)))"

text \<open>The operator \<^verbatim>\<open>/\<close> on integers, with the quotient exact.\<close>

datatype quotient = QNaN | QInfinity bool | QValue rat

definition quotientOf :: "int \<Rightarrow> int \<Rightarrow> quotient" where
  "quotientOf a b =
     (if b = 0 then (if a = 0 then QNaN else QInfinity (a < 0))
      else QValue (of_int a / of_int b))"

record weekly =
  weeks :: "string list"
  caloriesBurnt :: "int list"

record dashboard =
  totalCaloriesBurnt :: int
  totalWorkouts :: nat
  avgCaloriesBurntPerWorkout :: quotient
  totalWeeksCaloriesBurnt :: weekly

text \<open>The loop \<^verbatim>\<open>for (let i = 6; i >= 0; i--)\<close> (lines 129 to 167).\<close>

function weekLoop :: "stored_workout list \<Rightarrow> string \<Rightarrow> int \<Rightarrow> int \<Rightarrow> int \<Rightarrow> weekly \<Rightarrow> weekly" where
  "weekLoop ws uid now tz i acc =
     (if i \<ge> 0 then
        (let date = now - i * 24 * 60 * 60 * 1000;
             label = digitsOf (nat (getDate tz date)) @ ''th'';
             startOfDay = newDate tz date 0;
             endOfDay = newDate tz date 1;
             weekData = groupByDate (matchStage ws uid startOfDay endOfDay);
             total = (case weekData of [] \<Rightarrow> 0 | g # _ \<Rightarrow> if snd g \<noteq> 0 then snd g else 0)
         in weekLoop ws uid now tz (i - 1)
              \<lparr>weeks = weeks acc @ [label], caloriesBurnt = caloriesBurnt acc @ [total]\<rparr>)
      else acc)"
  by pat_completeness auto
termination
  by (relation "measure (\<lambda>(ws, uid, now, tz, i, acc). nat (i + 1))") auto

text \<open>
  \<^verbatim>\<open>getUserDashboard\<close> (lines 65 to 185), with the store, the clock, the time zone and
  \<^verbatim>\<open>req.user?.id\<close> as arguments.  The pie chart data are left out.
\<close>

definition getUserDashboard :: "store \<Rightarrow> int \<Rightarrow> int \<Rightarrow> string option \<Rightarrow> error + dashboard" where
  "getUserDashboard db now tz userId =
     (case userId of
        None \<Rightarrow> Inl (CreateError 404 UserNotFound)
      | Some uid \<Rightarrow>
          if uid \<notin> set (users db) then Inl (CreateError 404 UserNotFound)
          else
            (let startToday = newDate tz now 0;
                 endToday = newDate tz now 1;
                 totalCaloriesBurnt = groupNull (matchStage (workouts db) uid startToday endToday);
                 totalWorkouts = length (matchStage (workouts db) uid startToday endToday);
                 avgCaloriesBurntPerWorkout =
                   (if length totalCaloriesBurnt > 0
                    then quotientOf (totalCaloriesBurnt ! 0) (int totalWorkouts)
                    else QValue 0)
             in Inr \<lparr>
                  totalCaloriesBurnt =
                    (if length totalCaloriesBurnt > 0 then totalCaloriesBurnt ! 0 else 0),
                  totalWorkouts = totalWorkouts,
                  avgCaloriesBurntPerWorkout = avgCaloriesBurntPerWorkout,
                  totalWeeksCaloriesBurnt =
                    weekLoop (workouts db) uid now tz 6 \<lparr>weeks = [], caloriesBurnt = []\<rparr> \<rparr>))"

section \<open>Notions the properties are stated with\<close>

text \<open>The Number of an integer.\<close>

definition fromInt :: "int \<Rightarrow> number" where
  "fromInt i = mkNumber i 0"

text \<open>
  The stored workouts of a user whose date falls on a given local calendar day (counted
  from 1 January 1970), and their total calories.
\<close>

definition entriesOfDay :: "stored_workout list \<Rightarrow> string \<Rightarrow> int \<Rightarrow> int \<Rightarrow> stored_workout list" where
  "entriesOfDay ws uid tz day = filter (\<lambda>w. s_user w = uid \<and> localDay tz (s_date w) = day) ws"

definition dayTotal :: "stored_workout list \<Rightarrow> string \<Rightarrow> int \<Rightarrow> int \<Rightarrow> int" where
  "dayTotal ws uid tz day = sum_list (map s_caloriesBurned (entriesOfDay ws uid tz day))"

text \<open>
  The two ways a call of the callback can go, as conditions on the trimmed segment: it
  is reported as missing details, or it begins with \<^verbatim>\<open>#\<close> and has five lines or more, so
  that the call of \<^verbatim>\<open>parseWorkoutLine\<close> is evaluated.
\<close>

definition partsOf :: "string \<Rightarrow> string list" where
  "partsOf line = map trim (split line [CHR 0x0A])"

definition missingDetails :: "string \<Rightarrow> bool" where
  "missingDetails line = (\<not> startsWith line ''#'' \<or> length (partsOf line) < 5)"

definition reachesParser :: "string \<Rightarrow> bool" where
  "reachesParser line = (startsWith line ''#'' \<and> 5 \<le> length (partsOf line))"

text \<open>The calls of \<^verbatim>\<open>next\<close> made when the loop is left, normally or by an exception.\<close>

definition callsOf :: "(js_exception \<times> loop_state) + loop_state \<Rightarrow> error list" where
  "callsOf r = (case r of Inl (ex, st) \<Rightarrow> nextCalls st | Inr st \<Rightarrow> nextCalls st)"

text \<open>
  The value of a Number truncated toward zero, as \<^verbatim>\<open>Math.trunc\<close> gives it, and the finite
  Numbers that \<^verbatim>\<open>Number::toString\<close> prints without an exponent: zero, and those of a
  magnitude from \<open>10\<^sup>-\<^sup>6\<close> up to, but not including, \<open>10\<^sup>2\<^sup>1\<close>.
\<close>

definition truncTowardZero :: "number \<Rightarrow> number" where
  "truncTowardZero x =
     (case x of
        Finite m e \<Rightarrow>
          if e \<ge> 0 then mkNumber m e
          else mkNumber (sgn m * (\<bar>m\<bar> div 10 ^ nat (- e))) 0
      | _ \<Rightarrow> x)"

definition fixedNotation :: "number \<Rightarrow> bool" where
  "fixedNotation x =
     (case x of
        Finite m e \<Rightarrow>
          (case normalizeDecimal m e of
             (s, e') \<Rightarrow>
               s = 0 \<or> (- 6 < int (length (digitsOf (nat \<bar>s\<bar>))) + e'
                        \<and> int (length (digitsOf (nat \<bar>s\<bar>))) + e' \<le> 21))
      | _ \<Rightarrow> False)"

text \<open>
  The label and the total that step \<open>i\<close> of the loop of the dashboard appends, and the
  condition that the entries of a local day all fall on one UTC date.
\<close>

definition weekLabel :: "int \<Rightarrow> int \<Rightarrow> int \<Rightarrow> string" where
  "weekLabel now tz i = digitsOf (nat (getDate tz (now - i * 24 * 60 * 60 * 1000))) @ ''th''"

definition weekTotal :: "stored_workout list \<Rightarrow> string \<Rightarrow> int \<Rightarrow> int \<Rightarrow> int \<Rightarrow> int" where
  "weekTotal ws uid now tz i =
     (let date = now - i * 24 * 60 * 60 * 1000;
          weekData = groupByDate (matchStage ws uid (newDate tz date 0) (newDate tz date 1))
      in case weekData of [] \<Rightarrow> 0 | g # _ \<Rightarrow> if snd g \<noteq> 0 then snd g else 0)"

definition sameUtcDate :: "stored_workout list \<Rightarrow> bool" where
  "sameUtcDate ms = (\<forall>w\<in>set ms. \<forall>w'\<in>set ms. utcDate w = utcDate w')"

text \<open>
  A store for the examples: user \<open>u1\<close> has workouts of 300 and 200 calories on
  14 November 2023 at 22:13:20 UTC and three hours later, and one of 70 calories three
  days before the first; user \<open>u2\<close> has one of 50 calories.
\<close>

definition sampleStore :: store where
  "sampleStore =
     \<lparr>users = [''u1''],
        workouts =
          [\<lparr>s_user = ''u1'', s_category = ''Legs'', s_caloriesBurned = 300, s_date = 1700000000000\<rparr>,
           \<lparr>s_user = ''u1'', s_category = ''Arms'', s_caloriesBurned = 200, s_date = 1700010800000\<rparr>,
           \<lparr>s_user = ''u2'', s_category = ''Arms'', s_caloriesBurned = 50, s_date = 1700000000000\<rparr>,
           \<lparr>s_user = ''u1'', s_category = ''Arms'', s_caloriesBurned = 70, s_date = 1699740800000\<rparr>]\<rparr>"

section \<open>Local days\<close>

lemma div_eq_iff_range:
  fixes d :: int
  assumes pos: "0 < d"
  shows "y div d = q \<longleftrightarrow> q * d \<le> y \<and> y < (q + 1) * d"
proof
  assume q: "y div d = q"
  have "y = d * (y div d) + y mod d" by simp
  moreover have "0 \<le> y mod d" and "y mod d < d" using pos by simp_all
  ultimately have "d * q \<le> y \<and> y < d * q + d"
    using q by (metis add.commute add_le_cancel_left add_less_cancel_left add_0)
  then show "q * d \<le> y \<and> y < (q + 1) * d" by (simp add: algebra_simps)
next
  assume A: "q * d \<le> y \<and> y < (q + 1) * d"
  define r where "r = y - q * d"
  have "0 \<le> r" and "r < d" using A by (simp_all add: r_def algebra_simps)
  then have "r div d = 0" by simp
  moreover have "y = r + q * d" by (simp add: r_def)
  ultimately show "y div d = q" using pos by simp
qed

text \<open>The range from local midnight to the next local midnight holds the dates of that local day.\<close>

lemma matchStage_day:
  "matchStage ws uid (newDate tz t 0) (newDate tz t 1) = entriesOfDay ws uid tz (localDay tz t)"
proof -
  have pos: "0 < msPerDay" by (simp add: msPerDay_def)
  have "(newDate tz t 0 \<le> x \<and> x < newDate tz t 1) \<longleftrightarrow> localDay tz x = localDay tz t" for x
    using div_eq_iff_range [OF pos, of "x + tz" "localDay tz t"]
    by (auto simp: newDate_def localDay_def)
  then show ?thesis
    by (simp add: matchStage_def entriesOfDay_def cong: conj_cong)
qed

lemma localDay_shift: "localDay tz (t - i * 24 * 60 * 60 * 1000) = localDay tz t - i"
proof -
  have "t - i * 24 * 60 * 60 * 1000 + tz = (t + tz) + (- i) * msPerDay"
    by (simp add: msPerDay_def)
  then show ?thesis
    unfolding localDay_def by (simp add: msPerDay_def del: mult_minus_left)
qed

section \<open>C5: the average calories per workout\<close>

text \<open>
  C5.  For a known user the dashboard counts today's workouts and sums their calories,
  and its average is the total divided by the count when the count is positive, and 0
  when there is no workout today: the quotient is never the NaN or the infinity of a
  division by zero.
\<close>

theorem avg_calories_per_workout:
  assumes "uid \<in> set (users db)"
  shows "\<exists>r. getUserDashboard db now tz (Some uid) = Inr r
           \<and> totalWorkouts r = length (entriesOfDay (workouts db) uid tz (localDay tz now))
           \<and> totalCaloriesBurnt r = dayTotal (workouts db) uid tz (localDay tz now)
           \<and> avgCaloriesBurntPerWorkout r =
               (if totalWorkouts r > 0
                then QValue (of_int (totalCaloriesBurnt r) / of_nat (totalWorkouts r))
                else QValue 0)"
  using assms
  by (simp add: getUserDashboard_def matchStage_day groupNull_def quotientOf_def dayTotal_def Let_def)

text \<open>500 calories in 2 workouts today give 250; no workout gives 0.\<close>

theorem avg_calories_per_workout_witness:
  "''u1'' \<in> set (users \<lparr>users = [''u1''], workouts =
       [\<lparr>s_user = ''u1'', s_category = ''Legs'', s_caloriesBurned = 300, s_date = 1700000000000\<rparr>,
        \<lparr>s_user = ''u2'', s_category = ''Legs'', s_caloriesBurned = 40, s_date = 1700000000000\<rparr>,
        \<lparr>s_user = ''u1'', s_category = ''Arms'', s_caloriesBurned = 200, s_date = 1700000001000\<rparr>]\<rparr>)
   \<and> (\<exists>r. getUserDashboard \<lparr>users = [''u1''], workouts =
       [\<lparr>s_user = ''u1'', s_category = ''Legs'', s_caloriesBurned = 300, s_date = 1700000000000\<rparr>,
        \<lparr>s_user = ''u2'', s_category = ''Legs'', s_caloriesBurned = 40, s_date = 1700000000000\<rparr>,
        \<lparr>s_user = ''u1'', s_category = ''Arms'', s_caloriesBurned = 200, s_date = 1700000001000\<rparr>]\<rparr>
          1700000002000 0 (Some ''u1'') = Inr r
        \<and> totalCaloriesBurnt r = 500 \<and> totalWorkouts r = 2
        \<and> avgCaloriesBurntPerWorkout r = QValue 250)
   \<and> ''u1'' \<in> set (users \<lparr>users = [''u1''], workouts = []\<rparr>)
   \<and> (\<exists>r. getUserDashboard \<lparr>users = [''u1''], workouts = []\<rparr> 1700000002000 0 (Some ''u1'') = Inr r
        \<and> totalCaloriesBurnt r = 0 \<and> totalWorkouts r = 0
        \<and> avgCaloriesBurntPerWorkout r = QValue 0)"
  using avg_calories_per_workout [of "''u1''" "\<lparr>users = [''u1''], workouts =
       [\<lparr>s_user = ''u1'', s_category = ''Legs'', s_caloriesBurned = 300, s_date = 1700000000000\<rparr>,
        \<lparr>s_user = ''u2'', s_category = ''Legs'', s_caloriesBurned = 40, s_date = 1700000000000\<rparr>,
        \<lparr>s_user = ''u1'', s_category = ''Arms'', s_caloriesBurned = 200, s_date = 1700000001000\<rparr>]\<rparr>"
        1700000002000 0]
    avg_calories_per_workout [of "''u1''" "\<lparr>users = [''u1''], workouts = []\<rparr>" 1700000002000 0]
  by (auto simp: entriesOfDay_def dayTotal_def localDay_def msPerDay_def)

section \<open>The loop over the segments\<close>

text \<open>
  A segment is either reported as missing details, or it reaches the call of
  \<^verbatim>\<open>parseWorkoutLine\<close>, which raises.
\<close>

lemma segment_cases: "reachesParser line = (\<not> missingDetails line)"
  by (auto simp: missingDetails_def reachesParser_def)

lemma callback_missingDetails:
  assumes "missingDetails line"
  shows "callback st line =
    Inr (st\<lparr>count := count st + 1,
            nextCalls := nextCalls st @ [CreateError 400 (MissingDetails (count st + 1))]\<rparr>)"
  using assms by (auto simp: callback_def missingDetails_def partsOf_def Let_def)

lemma callback_reachesParser:
  assumes "reachesParser line"
  shows "callback st line = Inl ReferenceError"
  using assms
  by (auto simp: callback_def reachesParser_def partsOf_def parseWorkoutLine_def Let_def)

lemma empty_missingDetails: "missingDetails []"
  by (simp add: missingDetails_def startsWith_def)

lemma forEach_calls_prefix: "prefix (nextCalls st) (callsOf (forEach segs st))"
proof (induction segs arbitrary: st)
  case Nil
  show ?case by (simp add: callsOf_def)
next
  case (Cons seg rest)
  show ?case
  proof (cases "missingDetails seg")
    case True
    let ?st' = "st\<lparr>count := count st + 1,
            nextCalls := nextCalls st @ [CreateError 400 (MissingDetails (count st + 1))]\<rparr>"
    have "prefix (nextCalls ?st') (callsOf (forEach rest ?st'))" by (rule Cons.IH)
    then have "prefix (nextCalls st) (callsOf (forEach rest ?st'))"
      by (simp add: append_prefixD)
    then show ?thesis using True by (simp add: callback_missingDetails)
  next
    case False
    then have "reachesParser seg" by (simp add: segment_cases)
    then show ?thesis by (simp add: callback_reachesParser callsOf_def)
  qed
qed

text \<open>No call of the callback adds an entry: the list of parsed workouts stays as it was.\<close>

lemma forEach_parsedWorkouts:
  "forEach segs st = Inr st' \<Longrightarrow> parsedWorkouts st' = parsedWorkouts st"
proof (induction segs arbitrary: st)
  case Nil
  then show ?case by simp
next
  case (Cons seg rest)
  show ?case
  proof (cases "missingDetails seg")
    case True
    let ?st1 = "st\<lparr>count := count st + 1,
            nextCalls := nextCalls st @ [CreateError 400 (MissingDetails (count st + 1))]\<rparr>"
    from Cons.prems True have "forEach rest ?st1 = Inr st'"
      by (simp add: callback_missingDetails)
    from Cons.IH [OF this] show ?thesis by simp
  next
    case False
    then have "reachesParser seg" by (simp add: segment_cases)
    with Cons.prems show ?thesis by (simp add: callback_reachesParser)
  qed
qed

lemma split_not_Nil: "split s (d # ds) \<noteq> []"
  by (cases s) (auto split: list.splits)

lemma eachWorkout_not_Nil: "eachWorkout raw \<noteq> []"
  by (simp add: eachWorkout_def split_not_Nil)

lemma addWorkout_events:
  assumes "uid \<noteq> []" and "raw \<noteq> []"
  shows "\<exists>tail. addWorkout (Some uid) raw =
           map Next (callsOf (forEach (eachWorkout raw) initialState)) @ tail \<and> tail \<noteq> []"
  using assms
  by (auto simp: addWorkout_def callsOf_def Let_def split: sum.splits prod.splits)

text \<open>Every event of the handler is a call of \<^verbatim>\<open>next\<close> with an error, and there is one at least.\<close>

lemma addWorkout_calls_next: "\<exists>e es. addWorkout userId raw = map Next (e # es)"
proof -
  have snoc: "\<exists>e es. map Next xs @ [Next y] = map Next (e # es)" for xs y
  proof -
    obtain e es where "xs @ [y] = e # es" by (cases xs) auto
    then have "map Next xs @ [Next y] = map Next (e # es)"
      by (metis list.simps(8) list.simps(9) map_append)
    then show ?thesis by blast
  qed
  have one: "\<exists>e es. [Next y] = map Next (e # es)" for y
    using snoc [of "[]" y] by simp
  show ?thesis
  proof (cases userId)
    case None
    then show ?thesis using one by (simp add: addWorkout_def)
  next
    case (Some uid)
    show ?thesis
    proof (cases "uid = [] \<or> raw = []")
      case True
      then show ?thesis using Some one by (auto simp: addWorkout_def)
    next
      case False
      show ?thesis
      proof (cases "forEach (eachWorkout raw) initialState")
        case (Inl p)
        obtain ex st where p: "p = (ex, st)" by (cases p)
        have "addWorkout userId raw = map Next (nextCalls st) @ [Next (Thrown ex)]"
          using Some False Inl p by (simp add: addWorkout_def)
        then show ?thesis using snoc by simp
      next
        case (Inr st)
        have "parsedWorkouts st = []"
          using forEach_parsedWorkouts [OF Inr] by (simp add: initialState_def)
        then have "addWorkout userId raw =
            map Next (nextCalls st) @ [Next (CreateError 400 NoValidWorkouts)]"
          using Some False Inr by (simp add: addWorkout_def Let_def)
        then show ?thesis using snoc by simp
      qed
    qed
  qed
qed

text \<open>A first segment with missing details is the first error handed to \<^verbatim>\<open>next\<close>.\<close>

lemma addWorkout_first_missing:
  assumes "uid \<noteq> []" and "raw \<noteq> []" and "missingDetails (hd (eachWorkout raw))"
  shows "hd (addWorkout (Some uid) raw) = Next (CreateError 400 (MissingDetails 1))"
proof -
  obtain seg rest where segs: "eachWorkout raw = seg # rest"
    using eachWorkout_not_Nil [of raw] by (cases "eachWorkout raw") auto
  with assms(3) have m: "missingDetails seg" by simp
  let ?st1 = "initialState\<lparr>count := count initialState + 1,
      nextCalls := nextCalls initialState @
        [CreateError 400 (MissingDetails (count initialState + 1))]\<rparr>"
  have step: "forEach (seg # rest) initialState = forEach rest ?st1"
    using m by (simp add: callback_missingDetails)
  have "prefix (nextCalls ?st1) (callsOf (forEach rest ?st1))" by (rule forEach_calls_prefix)
  then obtain more where more: "callsOf (forEach rest ?st1) = nextCalls ?st1 @ more"
    by (auto simp: prefix_def)
  have calls: "callsOf (forEach (eachWorkout raw) initialState) =
      CreateError 400 (MissingDetails 1) # more"
    unfolding segs step more by (simp add: initialState_def)
  obtain tail where "addWorkout (Some uid) raw =
      map Next (callsOf (forEach (eachWorkout raw) initialState)) @ tail"
    using addWorkout_events [OF assms(1,2)] by blast
  then show ?thesis by (simp add: calls)
qed

section \<open>C1: nothing is inserted when a block fails\<close>

text \<open>
  C1.  Whatever is submitted, the handler never calls \<^verbatim>\<open>Workout.insertMany\<close> and never
  answers 201: every event is a call of \<^verbatim>\<open>next\<close> with an error, and there is at least
  one.  In particular a submission in which a block fails persists no entry, not even
  of the blocks before it, and surfaces an error.
\<close>

theorem addWorkout_never_inserts:
  "InsertMany docs \<notin> set (addWorkout userId workoutString)
   \<and> Json201 ws \<notin> set (addWorkout userId workoutString)
   \<and> (\<exists>e es. addWorkout userId workoutString = map Next (e # es))"
proof -
  obtain e es where "addWorkout userId workoutString = map Next (e # es)"
    using addWorkout_calls_next by blast
  then show ?thesis by auto
qed

text \<open>Five blocks of which the third has two lines: one error is handed to \<^verbatim>\<open>next\<close>, nothing is inserted.\<close>

theorem addWorkout_never_inserts_witness:
  "InsertMany [] \<notin> set (addWorkout (Some ''u1'')
     ''#Legs\<newline>#Squat\<newline>#3sets 12reps\<newline>#50kg\<newline>#10min;#Arms\<newline>#Curl\<newline>#3sets 10reps\<newline>#10kg\<newline>#5min;#Back\<newline>#Row;#Chest\<newline>#Press\<newline>#4sets 8reps\<newline>#40kg\<newline>#8min;#Core\<newline>#Plank\<newline>#1sets 1reps\<newline>#0kg\<newline>#3min'')
   \<and> Json201 [] \<notin> set (addWorkout (Some ''u1'')
     ''#Legs\<newline>#Squat\<newline>#3sets 12reps\<newline>#50kg\<newline>#10min;#Arms\<newline>#Curl\<newline>#3sets 10reps\<newline>#10kg\<newline>#5min;#Back\<newline>#Row;#Chest\<newline>#Press\<newline>#4sets 8reps\<newline>#40kg\<newline>#8min;#Core\<newline>#Plank\<newline>#1sets 1reps\<newline>#0kg\<newline>#3min'')
   \<and> addWorkout (Some ''u1'')
     ''#Legs\<newline>#Squat\<newline>#3sets 12reps\<newline>#50kg\<newline>#10min;#Arms\<newline>#Curl\<newline>#3sets 10reps\<newline>#10kg\<newline>#5min;#Back\<newline>#Row;#Chest\<newline>#Press\<newline>#4sets 8reps\<newline>#40kg\<newline>#8min;#Core\<newline>#Plank\<newline>#1sets 1reps\<newline>#0kg\<newline>#3min''
     = [Next (Thrown ReferenceError)]"
proof -
  let ?raw = "''#Legs\<newline>#Squat\<newline>#3sets 12reps\<newline>#50kg\<newline>#10min;#Arms\<newline>#Curl\<newline>#3sets 10reps\<newline>#10kg\<newline>#5min;#Back\<newline>#Row;#Chest\<newline>#Press\<newline>#4sets 8reps\<newline>#40kg\<newline>#8min;#Core\<newline>#Plank\<newline>#1sets 1reps\<newline>#0kg\<newline>#3min''"
  have ev: "addWorkout (Some ''u1'') ?raw = [Next (Thrown ReferenceError)]" by code_simp
  from addWorkout_never_inserts [where userId = "Some ''u1''" and workoutString = ?raw
      and docs = "[]" and ws = "[]"] ev
  show ?thesis by blast
qed

section \<open>C3: a well-formed block\<close>

text \<open>
  C3.  A well-formed block of five lines yields no entry.  The block passes the tests
  of its marker and of its number of lines, the call of \<^verbatim>\<open>parseWorkoutLine\<close> raises a
  \<^verbatim>\<open>ReferenceError\<close>, and the \<^verbatim>\<open>catch\<close> of the handler hands it to \<^verbatim>\<open>next\<close>: that is the
  only event.
\<close>

theorem well_formed_block_raises:
  "addWorkout (Some ''u1'') ''#Legs\<newline>#Squat\<newline>#3sets 12reps\<newline>#50.5kg\<newline>#10min''
   = [Next (Thrown ReferenceError)]"
  by code_simp

section \<open>C6: numeric fields\<close>

text \<open>
  C6.  A block of five lines whose numeric fields hold no number is not answered with an
  error that names the block: the call of \<^verbatim>\<open>parseWorkoutLine\<close> raises before the test of
  its result is reached, and the only event is the \<^verbatim>\<open>ReferenceError\<close> handed to \<^verbatim>\<open>next\<close>.
\<close>

theorem non_numeric_fields_raise:
  "addWorkout (Some ''u1'') ''#Legs\<newline>#Squat\<newline>#xsets yreps\<newline>#abckg\<newline>#defmin''
   = [Next (Thrown ReferenceError)]"
  by code_simp

section \<open>C7: the ordinal of a block with missing details\<close>

text \<open>
  C7.  A block of four lines in second position, after a well-formed block, is not
  reported: the first block raises a \<^verbatim>\<open>ReferenceError\<close>, which leaves the loop before
  the second segment is visited.
\<close>

theorem malformed_block_after_block:
  "addWorkout (Some ''u1'')
     ''#Legs\<newline>#Squat\<newline>#3sets 12reps\<newline>#50kg\<newline>#10min;#Back\<newline>#Row\<newline>#3sets 10reps\<newline>#20kg''
   = [Next (Thrown ReferenceError)]"
  by code_simp

section \<open>C8: the empty string, and a string of separators\<close>

text \<open>
  C8 as stated fails: the empty string is answered with "Workout string is missing", and
  a string of three separators first reports its first, empty segment as missing
  details; neither is answered with "No valid workouts found" alone.
\<close>

theorem empty_input_counterexample:
  "addWorkout (Some ''u1'') [] = [Next (CreateError 400 WorkoutStringMissing)]
   \<and> addWorkout (Some ''u1'') [] \<noteq> [Next (CreateError 400 NoValidWorkouts)]
   \<and> hd (addWorkout (Some ''u1'') '';;;'') = Next (CreateError 400 (MissingDetails 1))
   \<and> addWorkout (Some ''u1'') '';;;'' \<noteq> [Next (CreateError 400 NoValidWorkouts)]"
  by code_simp

text \<open>
  C8, amended.  For an authenticated user, the empty string fails with the error
  "Workout string is missing".  For a string that is not empty and whose segments are
  all empty after trimming, the first error is the report of missing details for segment
  1; nothing is inserted and no success is answered.
\<close>

theorem empty_input_errors:
  assumes "uid \<noteq> []"
  shows "addWorkout (Some uid) [] = [Next (CreateError 400 WorkoutStringMissing)]
         \<and> (raw \<noteq> [] \<and> (\<forall>seg\<in>set (eachWorkout raw). seg = []) \<longrightarrow>
              hd (addWorkout (Some uid) raw) = Next (CreateError 400 (MissingDetails 1))
              \<and> InsertMany docs \<notin> set (addWorkout (Some uid) raw)
              \<and> Json201 ws \<notin> set (addWorkout (Some uid) raw))"
proof -
  have one: "addWorkout (Some uid) [] = [Next (CreateError 400 WorkoutStringMissing)]"
    using assms by (simp add: addWorkout_def)
  have two: "hd (addWorkout (Some uid) raw) = Next (CreateError 400 (MissingDetails 1))"
    if raw: "raw \<noteq> []" and all: "\<forall>seg\<in>set (eachWorkout raw). seg = []"
  proof -
    have "hd (eachWorkout raw) \<in> set (eachWorkout raw)"
      using eachWorkout_not_Nil [of raw] by simp
    with all have "hd (eachWorkout raw) = []" by blast
    then have "missingDetails (hd (eachWorkout raw))" by (simp add: empty_missingDetails)
    from addWorkout_first_missing [OF assms raw this] show ?thesis .
  qed
  obtain e es where "addWorkout (Some uid) raw = map Next (e # es)"
    using addWorkout_calls_next by blast
  then have three: "InsertMany docs \<notin> set (addWorkout (Some uid) raw)
      \<and> Json201 ws \<notin> set (addWorkout (Some uid) raw)"
    by auto
  from one two three show ?thesis by blast
qed

text \<open>The empty string, and the string of three separators with its four empty segments.\<close>

theorem empty_input_errors_witness:
  "''u1'' \<noteq> [] \<and> '';;;'' \<noteq> []
   \<and> eachWorkout '';;;'' = [[], [], [], []]
   \<and> addWorkout (Some ''u1'') [] = [Next (CreateError 400 WorkoutStringMissing)]
   \<and> hd (addWorkout (Some ''u1'') '';;;'') = Next (CreateError 400 (MissingDetails 1))
   \<and> InsertMany [] \<notin> set (addWorkout (Some ''u1'') '';;;'')
   \<and> Json201 [] \<notin> set (addWorkout (Some ''u1'') '';;;'')"
proof -
  have segs: "eachWorkout '';;;'' = [[], [], [], []]" by code_simp
  have h: "''u1'' \<noteq> []" by simp
  from empty_input_errors [OF h, where raw = "'';;;''" and docs = "[]" and ws = "[]"] segs
  show ?thesis by simp
qed

section \<open>C9: empty segments\<close>

text \<open>
  C9 as stated fails: a string made of an empty segment and a well-formed block is not
  parsed with success, and its empty segment is reported as missing details, with
  ordinal 1; a well-formed block followed by a separator is not parsed with success
  either.
\<close>

theorem leading_separator_counterexample:
  "addWorkout (Some ''u1'') '';#Legs\<newline>#Squat\<newline>#3sets 12reps\<newline>#50kg\<newline>#10min''
     = [Next (CreateError 400 (MissingDetails 1)), Next (Thrown ReferenceError)]
   \<and> addWorkout (Some ''u1'') ''#Legs\<newline>#Squat\<newline>#3sets 12reps\<newline>#50kg\<newline>#10min;''
     = [Next (Thrown ReferenceError)]"
  by code_simp

text \<open>
  C9, amended.  The loop visits the trimmed segments from the first, the empty ones
  too: when the first segment of a string that is not empty is empty after trimming,
  it is not skipped, and the first error handed to \<^verbatim>\<open>next\<close> is the report of missing
  details for segment 1.
\<close>

theorem empty_first_segment_reported:
  assumes "uid \<noteq> []" and "raw \<noteq> []" and "hd (eachWorkout raw) = []"
  shows "hd (addWorkout (Some uid) raw) = Next (CreateError 400 (MissingDetails 1))"
proof -
  from assms(3) have "missingDetails (hd (eachWorkout raw))"
    by (simp add: empty_missingDetails)
  from addWorkout_first_missing [OF assms(1,2) this] show ?thesis .
qed

text \<open>A separator before a well-formed block makes an empty first segment.\<close>

theorem empty_first_segment_reported_witness:
  "''u1'' \<noteq> []
   \<and> '';#Legs\<newline>#Squat\<newline>#3sets 12reps\<newline>#50kg\<newline>#10min'' \<noteq> []
   \<and> hd (eachWorkout '';#Legs\<newline>#Squat\<newline>#3sets 12reps\<newline>#50kg\<newline>#10min'') = []
   \<and> hd (addWorkout (Some ''u1'') '';#Legs\<newline>#Squat\<newline>#3sets 12reps\<newline>#50kg\<newline>#10min'')
       = Next (CreateError 400 (MissingDetails 1))"
proof -
  let ?raw = "'';#Legs\<newline>#Squat\<newline>#3sets 12reps\<newline>#50kg\<newline>#10min''"
  have h1: "''u1'' \<noteq> []" and h2: "?raw \<noteq> []" by simp_all
  have h3: "hd (eachWorkout ?raw) = []" by code_simp
  from empty_first_segment_reported [OF h1 h2 h3] h3 show ?thesis by simp
qed

section \<open>C10: a block whose later lines have no marker\<close>

text \<open>
  C10.  A block whose first line begins with \<^verbatim>\<open>#\<close> and whose four other lines have no
  marker passes the tests of the handler, which look at the first character of the
  segment and at the number of lines only; it is not parsed, though: the call of
  \<^verbatim>\<open>parseWorkoutLine\<close> raises a \<^verbatim>\<open>ReferenceError\<close>, and no entry with the weight 2 is made.
\<close>

theorem unmarked_lines_raise:
  "addWorkout (Some ''u1'') ''#Legs\<newline>Squat\<newline>3sets 12reps\<newline>72kg\<newline>10min''
   = [Next (Thrown ReferenceError)]"
  by code_simp

section \<open>Digits, decimals and \<^verbatim>\<open>parseInt\<close>\<close>

declare digitsOf.simps [simp del]
declare normalizeDecimal.simps [simp del]

lemma char_of_digits:
  "map (\<lambda>d. char_of (48 + d)) [0, 1, 2, 3, 4, 5, 6, 7, 8, 9 :: nat] = ''0123456789''"
  by code_simp

lemma isDigit_char_of:
  assumes "d < 10"
  shows "isDigit (char_of (48 + d))" and "digitValue (char_of (48 + d)) = d"
proof -
  from assms have "d \<in> {0, 1, 2, 3, 4, 5, 6, 7, 8, 9}" by auto
  then show "isDigit (char_of (48 + d))"
    using char_of_digits by (auto simp: isDigit_def)
  from assms show "digitValue (char_of (48 + d)) = d"
    by (simp add: digitValue_def)
qed

lemma digitsOf_not_Nil: "digitsOf n \<noteq> []"
  by (subst digitsOf.simps) simp

lemma digitsOf_digits: "c \<in> set (digitsOf n) \<Longrightarrow> isDigit c"
proof (induction n arbitrary: c rule: digitsOf.induct)
  case (1 n)
  show ?case
  proof (cases "n < 10")
    case True
    with "1.prems" show ?thesis
      by (subst (asm) digitsOf.simps) (simp add: isDigit_char_of)
  next
    case False
    with "1.prems" have "c \<in> set (digitsOf (n div 10)) \<or> c = char_of (48 + n mod 10)"
      by (subst (asm) digitsOf.simps) auto
    then show ?thesis using "1.IH" [OF False] by (auto simp: isDigit_char_of)
  qed
qed

lemma radixValue_snoc: "radixValue r (ds @ [c]) = r * radixValue r ds + digitValue c"
  by (simp add: radixValue_def)

lemma radixValue_digitsOf: "radixValue 10 (digitsOf n) = n"
proof (induction n rule: digitsOf.induct)
  case (1 n)
  show ?case
  proof (cases "n < 10")
    case True
    then show ?thesis
      by (subst digitsOf.simps) (simp add: radixValue_def isDigit_char_of)
  next
    case False
    then show ?thesis
      using "1.IH" [OF False]
      by (subst digitsOf.simps) (simp add: radixValue_snoc isDigit_char_of)
  qed
qed

lemma digitsOf_bounds:
  "n < 10 ^ length (digitsOf n) \<and> (0 < n \<longrightarrow> 10 ^ (length (digitsOf n) - 1) \<le> n)"
proof (induction n rule: digitsOf.induct)
  case (1 n)
  show ?case
  proof (cases "n < 10")
    case True
    then show ?thesis by (subst digitsOf.simps, subst digitsOf.simps) simp
  next
    case False
    have len: "length (digitsOf n) = Suc (length (digitsOf (n div 10)))"
      using False by (subst digitsOf.simps) simp
    from "1.IH" [OF False] have ih: "n div 10 < 10 ^ length (digitsOf (n div 10))"
      and ih2: "10 ^ (length (digitsOf (n div 10)) - 1) \<le> n div 10"
      using False by auto
    have "n < 10 * 10 ^ length (digitsOf (n div 10))" using ih by linarith
    moreover have "10 * 10 ^ (length (digitsOf (n div 10)) - 1) \<le> n" using ih2 by linarith
    moreover have "length (digitsOf (n div 10)) \<noteq> 0" by (simp add: digitsOf_not_Nil)
    ultimately show ?thesis
      by (simp add: len power_eq_if)
  qed
qed

lemma radixValue_take_digitsOf:
  "j \<le> length (digitsOf n) \<Longrightarrow>
     radixValue 10 (take j (digitsOf n)) = n div 10 ^ (length (digitsOf n) - j)"
proof (induction n arbitrary: j rule: digitsOf.induct)
  case (1 n)
  show ?case
  proof (cases "j = length (digitsOf n)")
    case True
    then show ?thesis by (simp add: radixValue_digitsOf)
  next
    case neq: False
    show ?thesis
    proof (cases "n < 10")
      case True
      then have "length (digitsOf n) = 1" by (subst digitsOf.simps) simp
      with neq "1.prems" have "j = 0" by simp
      then show ?thesis using True \<open>length (digitsOf n) = 1\<close> by (simp add: radixValue_def)
    next
      case False
      have eq: "digitsOf n = digitsOf (n div 10) @ [char_of (48 + n mod 10)]"
        using False by (subst digitsOf.simps) simp
      then have len: "length (digitsOf n) = Suc (length (digitsOf (n div 10)))" by simp
      with neq "1.prems" have j: "j \<le> length (digitsOf (n div 10))" by simp
      then have "take j (digitsOf n) = take j (digitsOf (n div 10))" by (simp add: eq)
      then have "radixValue 10 (take j (digitsOf n))
          = (n div 10) div 10 ^ (length (digitsOf (n div 10)) - j)"
        using "1.IH" [OF False j] by simp
      also have "\<dots> = n div (10 * 10 ^ (length (digitsOf (n div 10)) - j))"
        by (simp add: div_mult2_eq)
      also have "10 * 10 ^ (length (digitsOf (n div 10)) - j) = (10::nat) ^ (length (digitsOf n) - j)"
        using j by (simp add: len Suc_diff_le)
      finally show ?thesis .
    qed
  qed
qed

lemma radixValue_append_zeros:
  "radixValue 10 (ds @ replicate j (CHR ''0'')) = radixValue 10 ds * 10 ^ j"
proof (induction j)
  case 0
  show ?case by simp
next
  case (Suc j)
  have "replicate (Suc j) (CHR ''0'') = replicate j (CHR ''0'') @ [CHR ''0'']"
    by (simp add: replicate_append_same)
  then have "radixValue 10 (ds @ replicate (Suc j) (CHR ''0''))
      = radixValue 10 ((ds @ replicate j (CHR ''0'')) @ [CHR ''0''])" by simp
  also have "\<dots> = 10 * radixValue 10 (ds @ replicate j (CHR ''0'')) + digitValue (CHR ''0'')"
    by (rule radixValue_snoc)
  finally show ?case using Suc by (simp add: digitValue_def)
qed

lemma normalizeDecimal_zero: "normalizeDecimal 0 e = (0, 0)"
  by (simp add: normalizeDecimal.simps)

lemma normalizeDecimal_fixpoint: "s mod 10 \<noteq> 0 \<Longrightarrow> normalizeDecimal s e = (s, e)"
  by (subst normalizeDecimal.simps) auto

lemma normalizeDecimal_props:
  "normalizeDecimal m e = (s, e') \<Longrightarrow>
     (m = 0 \<longrightarrow> s = 0 \<and> e' = 0)
     \<and> (m \<noteq> 0 \<longrightarrow> s mod 10 \<noteq> 0 \<and> e \<le> e' \<and> m = s * 10 ^ nat (e' - e))"
proof (induction m e rule: normalizeDecimal.induct)
  case (1 m e)
  show ?case
  proof (cases "m = 0")
    case True
    with "1.prems" show ?thesis by (simp add: normalizeDecimal_zero)
  next
    case nz: False
    show ?thesis
    proof (cases "m mod 10 = 0")
      case True
      then have m: "m = (m div 10) * 10" by presburger
      with nz have nz': "m div 10 \<noteq> 0" by auto
      from "1.prems" nz True have "normalizeDecimal (m div 10) (e + 1) = (s, e')"
        by (subst (asm) normalizeDecimal.simps) simp
      from "1.IH" [OF nz True this] nz'
      have ih: "s mod 10 \<noteq> 0" "e + 1 \<le> e'" "m div 10 = s * 10 ^ nat (e' - (e + 1))" by auto
      have "nat (e' - e) = Suc (nat (e' - (e + 1)))" using ih(2) by simp
      then have "s * 10 ^ nat (e' - e) = (s * 10 ^ nat (e' - (e + 1))) * 10" by simp
      also have "\<dots> = m" using ih(3) m by simp
      finally show ?thesis using nz ih by simp
    next
      case False
      with "1.prems" nz have "s = m" "e' = e" by (simp_all add: normalizeDecimal_fixpoint)
      with False nz show ?thesis by simp
    qed
  qed
qed

lemma normalizeDecimal_shift: "normalizeDecimal (m * 10 ^ j) e = normalizeDecimal m (e + int j)"
proof (induction j arbitrary: e)
  case 0
  show ?case by simp
next
  case (Suc j)
  show ?case
  proof (cases "m = 0")
    case True
    then show ?thesis by (simp add: normalizeDecimal_zero)
  next
    case False
    have "normalizeDecimal (m * 10 ^ Suc j) e = normalizeDecimal ((m * 10 ^ Suc j) div 10) (e + 1)"
      using False by (subst normalizeDecimal.simps) simp
    also have "(m * 10 ^ Suc j) div 10 = m * 10 ^ j" by simp
    also have "normalizeDecimal (m * 10 ^ j) (e + 1) = normalizeDecimal m (e + 1 + int j)" by (rule Suc.IH)
    finally show ?thesis by (simp add: add.assoc)
  qed
qed

lemma mkNumber_shift: "mkNumber (m * 10 ^ j) e = mkNumber m (e + int j)"
  by (simp add: mkNumber_def normalizeDecimal_shift)

lemma mkNumber_normal: "normalizeDecimal m e = (s, e') \<Longrightarrow> mkNumber s e' = Finite s e'"
proof -
  assume n: "normalizeDecimal m e = (s, e')"
  show ?thesis
  proof (cases "m = 0")
    case True
    with n show ?thesis by (simp add: normalizeDecimal_zero mkNumber_def)
  next
    case False
    with normalizeDecimal_props [OF n] have "s mod 10 \<noteq> 0" by simp
    then show ?thesis by (simp add: mkNumber_def normalizeDecimal_fixpoint)
  qed
qed

lemma digit_not_other:
  assumes "isDigit c"
  shows "\<not> isWhiteSpace c" and "c \<noteq> CHR ''-''" and "c \<noteq> CHR ''+''"
    and "c \<noteq> CHR ''x''" and "c \<noteq> CHR ''X''" and "c \<noteq> CHR ''.''"
  using assms by (auto simp: isDigit_def isWhiteSpace_def)

lemma takeWhile_digits:
  assumes "\<forall>c\<in>set ds. isDigit c" and "rest = [] \<or> \<not> isDigit (hd rest)"
  shows "takeWhile isDigit (ds @ rest) = ds"
proof -
  have "takeWhile isDigit rest = []" using assms(2) by (cases rest) auto
  with assms(1) show ?thesis by (simp add: takeWhile_append2)
qed

lemma parseInt_digits:
  assumes ne: "ds \<noteq> []" and dig: "\<forall>c\<in>set ds. isDigit c"
    and rest: "rest = [] \<or> hd rest = CHR ''.''"
  shows "parseInt (ds @ rest) = mkNumber (int (radixValue 10 ds)) 0"
    and "parseInt (CHR ''-'' # ds @ rest) = mkNumber (- int (radixValue 10 ds)) 0"
proof -
  from ne obtain d ds' where ds: "ds = d # ds'" by (cases ds) auto
  with dig have d: "isDigit d" by simp
  have nohex: "\<not> startsWith (ds @ rest) ''0x''" "\<not> startsWith (ds @ rest) ''0X''"
  proof -
    have "\<not> prefix ''x'' (ds' @ rest) \<and> \<not> prefix ''X'' (ds' @ rest)"
    proof (cases ds')
      case Nil
      with rest show ?thesis by (cases rest) auto
    next
      case (Cons c cs)
      with dig ds have "isDigit c" by simp
      with Cons digit_not_other [of c] show ?thesis by auto
    qed
    then show "\<not> startsWith (ds @ rest) ''0x''" "\<not> startsWith (ds @ rest) ''0X''"
      by (auto simp: startsWith_def ds)
  qed
  have "rest = [] \<or> \<not> isDigit (hd rest)" using rest by (auto simp: isDigit_def)
  with dig have tw: "takeWhile isDigit (ds @ rest) = ds" by (rule takeWhile_digits)
  have nosign: "\<not> startsWith (ds @ rest) ''-''" "\<not> startsWith (ds @ rest) ''+''"
    using digit_not_other [OF d] by (auto simp: startsWith_def ds)
  have ws: "dropWhile isWhiteSpace (ds @ rest) = ds @ rest"
    using digit_not_other [OF d] by (simp add: ds)
  show "parseInt (ds @ rest) = mkNumber (int (radixValue 10 ds)) 0"
    unfolding parseInt_def ws using nohex nosign tw ne by (simp add: Let_def)
  have ws': "dropWhile isWhiteSpace (CHR ''-'' # ds @ rest) = CHR ''-'' # ds @ rest"
    by (simp add: isWhiteSpace_def)
  show "parseInt (CHR ''-'' # ds @ rest) = mkNumber (- int (radixValue 10 ds)) 0"
    unfolding parseInt_def ws' using nohex tw ne by (simp add: Let_def startsWith_def)
qed

lemma truncTowardZero_normal:
  assumes n: "normalizeDecimal m e = (s, e')" and nz: "s \<noteq> 0"
  shows "truncTowardZero (Finite m e) =
           (if e' \<ge> 0 then Finite s e' else mkNumber (sgn s * (\<bar>s\<bar> div 10 ^ nat (- e'))) 0)"
proof -
  from nz normalizeDecimal_props [OF n] have mnz: "m \<noteq> 0" by auto
  with normalizeDecimal_props [OF n] have le: "e \<le> e'" and m: "m = s * 10 ^ nat (e' - e)" by auto
  have fin: "mkNumber m e = Finite s e'" by (simp add: mkNumber_def n)
  have sgn: "sgn m = sgn s" by (subst m) (simp add: sgn_mult)
  have abs: "\<bar>m\<bar> = \<bar>s\<bar> * 10 ^ nat (e' - e)" by (subst m) (simp add: abs_mult)
  show ?thesis
  proof (cases "e \<ge> 0")
    case True
    with le fin show ?thesis by (simp add: truncTowardZero_def)
  next
    case neg: False
    then have t: "truncTowardZero (Finite m e) = mkNumber (sgn s * (\<bar>m\<bar> div 10 ^ nat (- e))) 0"
      by (simp add: truncTowardZero_def sgn)
    show ?thesis
    proof (cases "e' \<ge> 0")
      case True
      then have "nat (e' - e) = nat (- e) + nat e'" using neg by simp
      then have "\<bar>m\<bar> = (\<bar>s\<bar> * 10 ^ nat e') * 10 ^ nat (- e)"
        by (simp add: abs power_add mult.assoc mult.commute)
      then have "\<bar>m\<bar> div 10 ^ nat (- e) = \<bar>s\<bar> * 10 ^ nat e'" by simp
      then have "truncTowardZero (Finite m e) = mkNumber (s * 10 ^ nat e') 0"
        by (simp add: t mult.assoc [symmetric] mult_sgn_abs)
      also have "\<dots> = mkNumber s (0 + int (nat e'))" by (rule mkNumber_shift)
      also have "\<dots> = Finite s e'" using True mkNumber_normal [OF n] by simp
      finally show ?thesis using True by simp
    next
      case False
      then have "nat (- e) = nat (e' - e) + nat (- e')" using le by simp
      then have "(10::int) ^ nat (- e) = 10 ^ nat (e' - e) * 10 ^ nat (- e')"
        by (simp add: power_add)
      then have "\<bar>m\<bar> div 10 ^ nat (- e) = \<bar>s\<bar> div 10 ^ nat (- e')"
        by (simp add: abs mult.commute [of "\<bar>s\<bar>"])
      with t False show ?thesis by simp
    qed
  qed
qed


text \<open>
  On a Number printed without an exponent, \<^verbatim>\<open>parseInt\<close> reads the digits before the point:
  the value truncated toward zero.
\<close>

lemma numberToString_fixed:
  assumes n: "normalizeDecimal m e = (s, e')" and nz: "s \<noteq> 0"
    and lo: "- 6 < int (length (digitsOf (nat \<bar>s\<bar>))) + e'"
    and hi: "int (length (digitsOf (nat \<bar>s\<bar>))) + e' \<le> 21"
  shows "numberToString (Finite m e) =
           (if s < 0 then ''-'' else []) @
           (if 0 \<le> e' then digitsOf (nat \<bar>s\<bar>) @ replicate (nat e') (CHR ''0'')
            else if 0 < int (length (digitsOf (nat \<bar>s\<bar>))) + e'
            then take (nat (int (length (digitsOf (nat \<bar>s\<bar>))) + e')) (digitsOf (nat \<bar>s\<bar>)) @ ''.'' @
                 drop (nat (int (length (digitsOf (nat \<bar>s\<bar>))) + e')) (digitsOf (nat \<bar>s\<bar>))
            else ''0.'' @ replicate (nat (- (int (length (digitsOf (nat \<bar>s\<bar>))) + e'))) (CHR ''0'') @
                 digitsOf (nat \<bar>s\<bar>))"
proof -
  define ds where "ds = digitsOf (nat \<bar>s\<bar>)"
  define k where "k = int (length ds)"
  have body: "numberToString (Finite m e) = (if s < 0 then ''-'' else []) @
      (if k \<le> k + e' \<and> k + e' \<le> 21 then ds @ replicate (nat (k + e' - k)) (CHR ''0'')
       else if 0 < k + e' \<and> k + e' \<le> 21 then take (nat (k + e')) ds @ ''.'' @ drop (nat (k + e')) ds
       else if - 6 < k + e' \<and> k + e' \<le> 0 then ''0.'' @ replicate (nat (- (k + e'))) (CHR ''0'') @ ds
       else if k = 1 then ds @ ''e'' @ ((if k + e' - 1 < 0 then ''-'' else ''+'') @ digitsOf (nat \<bar>k + e' - 1\<bar>))
       else take 1 ds @ ''.'' @ drop 1 ds @ ''e'' @ ((if k + e' - 1 < 0 then ''-'' else ''+'') @ digitsOf (nat \<bar>k + e' - 1\<bar>)))"
    unfolding numberToString_def ds_def k_def using nz
    by (simp only: number.case n prod.case Let_def if_False)
  from lo hi have lo': "- 6 < k + e'" and hi': "k + e' \<le> 21" by (simp_all add: k_def ds_def)
  show ?thesis
    unfolding body ds_def [symmetric] k_def [symmetric]
    using lo' hi' by (cases "0 \<le> e'") auto
qed

lemma parseInt_signed:
  assumes ne: "ds \<noteq> []" and dig: "\<forall>c\<in>set ds. isDigit c"
    and rest: "rest = [] \<or> hd rest = CHR ''.''"
  shows "parseInt ((if s < (0::int) then ''-'' else []) @ ds @ rest) =
           mkNumber ((if s < 0 then - 1 else 1) * int (radixValue 10 ds)) 0"
  using parseInt_digits [OF ne dig rest] by simp

lemma signed_abs_times: "(if s < 0 then - 1 else 1) * (\<bar>s\<bar> * c) = (s::int) * c"
  by (cases "s < 0") simp_all

lemma parseInt_fixed_int:
  assumes n: "normalizeDecimal m e = (s, e')" and e': "0 \<le> e'"
  shows "parseInt ((if s < 0 then ''-'' else []) @ digitsOf (nat \<bar>s\<bar>) @ replicate (nat e') (CHR ''0''))
           = Finite s e'"
proof -
  let ?ds = "digitsOf (nat \<bar>s\<bar>)"
  let ?zs = "replicate (nat e') (CHR ''0'')"
  have "isDigit (CHR ''0'')" by (simp add: isDigit_def)
  then have dig: "\<forall>c\<in>set (?ds @ ?zs). isDigit c" by (auto dest: digitsOf_digits)
  have ne: "?ds @ ?zs \<noteq> []" by (simp add: digitsOf_not_Nil)
  have "parseInt ((if s < 0 then ''-'' else []) @ ?ds @ ?zs) =
          mkNumber ((if s < 0 then - 1 else 1) * int (radixValue 10 (?ds @ ?zs))) 0"
    using parseInt_signed [OF ne dig, of "[]" s] by simp
  also have "int (radixValue 10 (?ds @ ?zs)) = \<bar>s\<bar> * 10 ^ nat e'"
    by (simp add: radixValue_append_zeros radixValue_digitsOf)
  also have "(if s < 0 then - 1 else 1) * (\<bar>s\<bar> * 10 ^ nat e') = s * 10 ^ nat e'"
    by (rule signed_abs_times)
  also have "mkNumber (s * 10 ^ nat e') 0 = mkNumber s (0 + int (nat e'))"
    by (rule mkNumber_shift)
  also have "0 + int (nat e') = e'" using e' by simp
  also have "mkNumber s e' = Finite s e'" by (rule mkNumber_normal [OF n])
  finally show ?thesis .
qed

lemma parseInt_fixed_frac:
  assumes nz: "s \<noteq> 0" and e': "e' < 0"
    and pos: "0 < int (length (digitsOf (nat \<bar>s\<bar>))) + e'"
  shows "parseInt ((if s < 0 then ''-'' else []) @
            take (nat (int (length (digitsOf (nat \<bar>s\<bar>))) + e')) (digitsOf (nat \<bar>s\<bar>)) @ ''.'' @
            drop (nat (int (length (digitsOf (nat \<bar>s\<bar>))) + e')) (digitsOf (nat \<bar>s\<bar>)))
           = mkNumber (sgn s * (\<bar>s\<bar> div 10 ^ nat (- e'))) 0"
proof -
  let ?ds = "digitsOf (nat \<bar>s\<bar>)"
  let ?j = "nat (int (length ?ds) + e')"
  have j: "?j \<le> length ?ds" using e' by simp
  have jpos: "0 < ?j" using pos by simp
  have ne: "take ?j ?ds \<noteq> []" using jpos by (simp add: digitsOf_not_Nil)
  have dig: "\<forall>c\<in>set (take ?j ?ds). isDigit c"
    by (auto dest: in_set_takeD digitsOf_digits)
  have rest: "''.'' @ drop ?j ?ds = [] \<or> hd (''.'' @ drop ?j ?ds) = CHR ''.''" by simp
  have "parseInt ((if s < 0 then ''-'' else []) @ take ?j ?ds @ ''.'' @ drop ?j ?ds) =
          mkNumber ((if s < 0 then - 1 else 1) * int (radixValue 10 (take ?j ?ds))) 0"
    by (rule parseInt_signed [OF ne dig rest])
  also have "radixValue 10 (take ?j ?ds) = nat \<bar>s\<bar> div 10 ^ (length ?ds - ?j)"
    by (rule radixValue_take_digitsOf [OF j])
  also have "length ?ds - ?j = nat (- e')" using pos e' by simp
  also have "int (nat \<bar>s\<bar> div 10 ^ nat (- e')) = \<bar>s\<bar> div 10 ^ nat (- e')"
    by (simp add: zdiv_int)
  also have "(if s < 0 then - 1 else 1) * (\<bar>s\<bar> div 10 ^ nat (- e')) = sgn s * (\<bar>s\<bar> div 10 ^ nat (- e'))"
    using nz by (simp add: sgn_if)
  finally show ?thesis .
qed

lemma parseInt_fixed_small:
  assumes le: "int (length (digitsOf (nat \<bar>s\<bar>))) + e' \<le> 0"
  shows "parseInt ((if s < 0 then ''-'' else []) @ ''0.'' @
            replicate (nat (- (int (length (digitsOf (nat \<bar>s\<bar>))) + e'))) (CHR ''0'') @ digitsOf (nat \<bar>s\<bar>))
           = mkNumber (sgn s * (\<bar>s\<bar> div 10 ^ nat (- e'))) 0"
proof -
  let ?ds = "digitsOf (nat \<bar>s\<bar>)"
  let ?rest = "''.'' @ replicate (nat (- (int (length ?ds) + e'))) (CHR ''0'') @ ?ds"
  have ne: "''0'' \<noteq> []" by simp
  have dig: "\<forall>c\<in>set ''0''. isDigit c" by (simp add: isDigit_def)
  have rest: "?rest = [] \<or> hd ?rest = CHR ''.''" by simp
  have "parseInt ((if s < 0 then ''-'' else []) @ ''0'' @ ?rest) =
          mkNumber ((if s < 0 then - 1 else 1) * int (radixValue 10 ''0'')) 0"
    by (rule parseInt_signed [OF ne dig rest])
  also have "radixValue 10 ''0'' = 0" by (simp add: radixValue_def digitValue_def)
  finally have p: "parseInt ((if s < 0 then ''-'' else []) @ ''0'' @ ?rest) = mkNumber 0 0" by simp
  have "nat \<bar>s\<bar> < 10 ^ length ?ds" using digitsOf_bounds [of "nat \<bar>s\<bar>"] by simp
  also have "length ?ds \<le> nat (- e')" using le by simp
  then have "(10::nat) ^ length ?ds \<le> 10 ^ nat (- e')" by (simp add: power_increasing)
  finally have "nat \<bar>s\<bar> div 10 ^ nat (- e') = 0" by simp
  then have "int (nat \<bar>s\<bar> div 10 ^ nat (- e')) = 0" by simp
  then have "\<bar>s\<bar> div 10 ^ nat (- e') = 0" by (simp add: zdiv_int)
  with p show ?thesis by simp
qed

lemma parseInt_numberToString:
  assumes fx: "fixedNotation x"
  shows "parseInt (numberToString x) = truncTowardZero x"
proof -
  from fx obtain m e where x: "x = Finite m e"
    by (cases x) (simp_all add: fixedNotation_def)
  obtain s e' where n: "normalizeDecimal m e = (s, e')" by (cases "normalizeDecimal m e")
  show ?thesis
  proof (cases "s = 0")
    case True
    with normalizeDecimal_props [OF n] have m0: "m = 0" by (cases "m = 0") auto
    have p: "parseInt ''0'' = Finite 0 0" by code_simp
    have t: "truncTowardZero (Finite 0 e) = Finite 0 0"
      by (simp add: truncTowardZero_def mkNumber_def normalizeDecimal_zero)
    have "numberToString (Finite 0 e) = ''0''"
      by (simp add: numberToString_def normalizeDecimal_zero)
    with p t show ?thesis by (simp add: x m0)
  next
    case nz: False
    let ?k = "int (length (digitsOf (nat \<bar>s\<bar>)))"
    from fx nz n have lo: "- 6 < ?k + e'" and hi: "?k + e' \<le> 21"
      by (simp_all add: fixedNotation_def x)
    note str = numberToString_fixed [OF n nz lo hi]
    note tr = truncTowardZero_normal [OF n nz]
    consider (int) "0 \<le> e'" | (frac) "e' < 0" "0 < ?k + e'" | (small) "e' < 0" "?k + e' \<le> 0"
      by linarith
    then show ?thesis
    proof cases
      case int
      then show ?thesis unfolding x str tr using parseInt_fixed_int [OF n int] by simp
    next
      case frac
      then show ?thesis unfolding x str tr using parseInt_fixed_frac [OF nz frac] by simp
    next
      case small
      then show ?thesis unfolding x str tr using parseInt_fixed_small [OF small(2)] by simp
    qed
  qed
qed

section \<open>C2: the calorie estimate\<close>

text \<open>
  C2 as stated fails for finite Numbers that are printed with an exponent.  A duration of
  \<open>5 * 10\<^sup>-\<^sup>7\<close> minutes is printed as \<^verbatim>\<open>5e-7\<close>, which \<^verbatim>\<open>parseInt\<close> reads as 5: with a
  weight of 70 the estimate is 1750, where truncation gives 0.  Likewise \<open>10\<^sup>2\<^sup>1\<close> is
  printed as \<^verbatim>\<open>1e+21\<close> and read as 1.
\<close>

theorem calorie_estimate_counterexample:
  "calculateCaloriesBurnt
     \<lparr>workoutName = ''Plank'', sets = fromInt 1, reps = fromInt 1, weight = fromInt 70,
        duration = Finite 5 (- 7), category = ''Core''\<rparr> = fromInt 1750
   \<and> multiply (multiply (truncTowardZero (Finite 5 (- 7))) (fromInt 5)) (truncTowardZero (fromInt 70))
       = fromInt 0
   \<and> fromInt 1750 \<noteq> fromInt 0
   \<and> numberToString (Finite 5 (- 7)) = ''5e-7''
   \<and> numberToString (Finite 1 21) = ''1e+21''
   \<and> parseInt (numberToString (Finite 1 21)) = fromInt 1
   \<and> truncTowardZero (Finite 1 21) = Finite 1 21"
  by code_simp

text \<open>
  C2, amended.  When duration and weight are zero or finite with a magnitude from
  \<open>10\<^sup>-\<^sup>6\<close> up to, but not including, \<open>10\<^sup>2\<^sup>1\<close>, the estimate is the duration truncated
  toward zero, times 5, times the weight truncated toward zero; nothing is rounded and
  nothing is clamped, so a negative value keeps its sign through the product.
\<close>

theorem calorie_estimate:
  assumes "fixedNotation (duration w)" and "fixedNotation (weight w)"
  shows "calculateCaloriesBurnt w =
           multiply (multiply (truncTowardZero (duration w)) (fromInt 5)) (truncTowardZero (weight w))"
proof -
  have five: "fromInt 5 = Finite 5 0" by code_simp
  show ?thesis
    by (simp add: calculateCaloriesBurnt_def Let_def five
        parseInt_numberToString [OF assms(1)] parseInt_numberToString [OF assms(2)])
qed

text \<open>The estimate for 72.9 kg and 30.7 min is 10800, and for -30.7 min it is -10800.\<close>

theorem calorie_estimate_witness:
  "fixedNotation (Finite 307 (- 1)) \<and> fixedNotation (Finite 729 (- 1))
   \<and> fixedNotation (Finite (- 307) (- 1))
   \<and> truncTowardZero (Finite 307 (- 1)) = fromInt 30
   \<and> truncTowardZero (Finite 729 (- 1)) = fromInt 72
   \<and> truncTowardZero (Finite (- 307) (- 1)) = fromInt (- 30)
   \<and> calculateCaloriesBurnt
       \<lparr>workoutName = ''Squat'', sets = fromInt 3, reps = fromInt 12, weight = Finite 729 (- 1),
          duration = Finite 307 (- 1), category = ''Legs''\<rparr> = fromInt 10800
   \<and> calculateCaloriesBurnt
       \<lparr>workoutName = ''Squat'', sets = fromInt 3, reps = fromInt 12, weight = Finite 729 (- 1),
          duration = Finite (- 307) (- 1), category = ''Legs''\<rparr> = fromInt (- 10800)"
proof -
  let ?w = "\<lparr>workoutName = ''Squat'', sets = fromInt 3, reps = fromInt 12, weight = Finite 729 (- 1),
          duration = Finite 307 (- 1), category = ''Legs''\<rparr>"
  let ?v = "\<lparr>workoutName = ''Squat'', sets = fromInt 3, reps = fromInt 12, weight = Finite 729 (- 1),
          duration = Finite (- 307) (- 1), category = ''Legs''\<rparr>"
  have f: "fixedNotation (Finite 307 (- 1))" "fixedNotation (Finite 729 (- 1))"
    "fixedNotation (Finite (- 307) (- 1))"
    by code_simp+
  have t: "truncTowardZero (Finite 307 (- 1)) = fromInt 30"
    "truncTowardZero (Finite 729 (- 1)) = fromInt 72"
    "truncTowardZero (Finite (- 307) (- 1)) = fromInt (- 30)"
    by code_simp+
  have v: "multiply (multiply (fromInt 30) (fromInt 5)) (fromInt 72) = fromInt 10800"
    "multiply (multiply (fromInt (- 30)) (fromInt 5)) (fromInt 72) = fromInt (- 10800)"
    by code_simp+
  from calorie_estimate [of ?w] calorie_estimate [of ?v] f t v
  show ?thesis by simp
qed

section \<open>The loop over the last seven days\<close>

declare weekLoop.simps [simp del]

lemma weekLoop_step:
  "0 \<le> i \<Longrightarrow> weekLoop ws uid now tz i acc =
     weekLoop ws uid now tz (i - 1)
       \<lparr>weeks = weeks acc @ [weekLabel now tz i],
          caloriesBurnt = caloriesBurnt acc @ [weekTotal ws uid now tz i]\<rparr>"
  by (subst weekLoop.simps) (simp only: weekLabel_def weekTotal_def Let_def if_True)

lemma weekLoop_done: "i < 0 \<Longrightarrow> weekLoop ws uid now tz i acc = acc"
  by (subst weekLoop.simps) simp

lemma weekLoop_six:
  "weekLoop ws uid now tz 6 acc =
     \<lparr>weeks = weeks acc @ map (weekLabel now tz) [6, 5, 4, 3, 2, 1, 0],
        caloriesBurnt = caloriesBurnt acc @ map (weekTotal ws uid now tz) [6, 5, 4, 3, 2, 1, 0]\<rparr>"
  by (simp add: weekLoop_step [of 6] weekLoop_step [of 5] weekLoop_step [of 4]
      weekLoop_step [of 3] weekLoop_step [of 2] weekLoop_step [of 1] weekLoop_step [of 0]
      weekLoop_done [of "- 1"])

lemma weekLabel_day:
  "weekLabel now tz i = digitsOf (nat (dayOfMonth (localDay tz now - i))) @ ''th''"
  unfolding weekLabel_def getDate_def localDay_shift ..


lemma remdups_constant: "xs \<noteq> [] \<Longrightarrow> \<forall>x\<in>set xs. x = d \<Longrightarrow> remdups xs = [d]"
proof (induction xs)
  case Nil
  then show ?case by simp
next
  case (Cons x xs)
  show ?case
  proof (cases "xs = []")
    case True
    with Cons.prems show ?thesis by simp
  next
    case False
    with Cons have "remdups xs = [d]" by simp
    moreover from False Cons.prems have "x \<in> set xs" by (cases xs) auto
    ultimately show ?thesis by simp
  qed
qed

lemma sameUtcDate_utc: "sameUtcDate (entriesOfDay ws uid 0 d)"
  unfolding sameUtcDate_def entriesOfDay_def utcDate_def localDay_def by simp


lemma groupByDate_one_date:
  assumes "sameUtcDate ms"
  shows "(case groupByDate ms of [] \<Rightarrow> 0 | g # _ \<Rightarrow> if snd g \<noteq> 0 then snd g else 0)
           = sum_list (map s_caloriesBurned ms)"
proof (cases "ms = []")
  case True
  then show ?thesis by (simp add: groupByDate_def)
next
  case False
  then obtain w where w: "w \<in> set ms" by (cases ms) auto
  let ?d = "utcDate w"
  have all: "\<forall>v\<in>set ms. utcDate v = ?d"
    using assms w unfolding sameUtcDate_def by blast
  then have c: "\<forall>x\<in>set (map utcDate ms). x = ?d" by simp
  have ne: "map utcDate ms \<noteq> []" using False by simp
  have r: "remdups (map utcDate ms) = [?d]" using ne c by (rule remdups_constant)
  have f: "filter (\<lambda>v. utcDate v = ?d) ms = ms" using all by (simp add: filter_id_conv)
  have "groupByDate ms = [(?d, sum_list (map s_caloriesBurned ms))]"
    unfolding groupByDate_def r by (simp add: f)
  then show ?thesis by simp
qed

lemma weekTotal_day:
  assumes "sameUtcDate (entriesOfDay ws uid tz (localDay tz now - i))"
  shows "weekTotal ws uid now tz i = dayTotal ws uid tz (localDay tz now - i)"
  unfolding weekTotal_def Let_def matchStage_day localDay_shift dayTotal_def
  by (rule groupByDate_one_date [OF assms])

section \<open>C4: the weekly series\<close>

text \<open>
  C4 as stated fails.  Each label is the day of the month followed by \<^verbatim>\<open>th\<close>: on
  14 November 2023 the last label is \<^verbatim>\<open>14th\<close>, not \<^verbatim>\<open>14\<close>.  And with the server five and a half
  hours ahead of UTC, the two workouts of user \<open>u1\<close> on the local 15 November fall on two
  UTC dates: the last value of the series is 300, the total of the first UTC date only,
  where the day's total is 500.
\<close>

theorem weekly_series_counterexample:
  "getUserDashboard \<lparr>users = [''u1''], workouts = []\<rparr> 1700000000000 0 (Some ''u1'') =
     Inr \<lparr>totalCaloriesBurnt = 0, totalWorkouts = 0, avgCaloriesBurntPerWorkout = QValue 0,
          totalWeeksCaloriesBurnt =
            \<lparr>weeks = [''8th'', ''9th'', ''10th'', ''11th'', ''12th'', ''13th'', ''14th''],
               caloriesBurnt = [0, 0, 0, 0, 0, 0, 0]\<rparr>\<rparr>
   \<and> digitsOf (nat (dayOfMonth (localDay 0 1700000000000))) = ''14''
   \<and> ''14th'' \<noteq> ''14''
   \<and> getUserDashboard sampleStore 1700014400000 19800000 (Some ''u1'') =
     Inr \<lparr>totalCaloriesBurnt = 500, totalWorkouts = 2, avgCaloriesBurntPerWorkout = QValue 250,
          totalWeeksCaloriesBurnt =
            \<lparr>weeks = [''9th'', ''10th'', ''11th'', ''12th'', ''13th'', ''14th'', ''15th''],
               caloriesBurnt = [0, 0, 0, 70, 0, 0, 300]\<rparr>\<rparr>
   \<and> dayTotal (workouts sampleStore) ''u1'' 19800000 (localDay 19800000 1700014400000) = 500"
  by code_simp

text \<open>
  C4, amended.  For a known user the weekly series has exactly 7 labels and 7 values,
  oldest first, for the 7 local calendar days that end today (in a time zone of fixed
  offset).  Each label is the day of the month as text followed by \<^verbatim>\<open>th\<close>.  Each value is
  the total calories of the user's entries of that local day, 0 when there is none,
  whenever these entries fall on one UTC date, as they all do on a server in UTC.
\<close>

theorem weekly_series:
  assumes "uid \<in> set (users db)"
  shows "\<exists>r. getUserDashboard db now tz (Some uid) = Inr r
           \<and> length (weeks (totalWeeksCaloriesBurnt r)) = 7
           \<and> length (caloriesBurnt (totalWeeksCaloriesBurnt r)) = 7
           \<and> (\<forall>j<7.
                 weeks (totalWeeksCaloriesBurnt r) ! j =
                   digitsOf (nat (dayOfMonth (localDay tz now - 6 + int j))) @ ''th''
                 \<and> (tz = 0 \<or> sameUtcDate (entriesOfDay (workouts db) uid tz (localDay tz now - 6 + int j))
                      \<longrightarrow> caloriesBurnt (totalWeeksCaloriesBurnt r) ! j =
                            dayTotal (workouts db) uid tz (localDay tz now - 6 + int j)))"
proof -
  let ?wk = "weekLoop (workouts db) uid now tz 6 \<lparr>weeks = [], caloriesBurnt = []\<rparr>"
  have wk: "?wk = \<lparr>weeks = map (weekLabel now tz) [6, 5, 4, 3, 2, 1, 0],
        caloriesBurnt = map (weekTotal (workouts db) uid now tz) [6, 5, 4, 3, 2, 1, 0]\<rparr>"
    by (simp add: weekLoop_six)
  obtain r where r: "getUserDashboard db now tz (Some uid) = Inr r"
    and tw: "totalWeeksCaloriesBurnt r = ?wk"
    using assms by (simp add: getUserDashboard_def Let_def)
  have idx: "[6, 5, 4, 3, 2, 1, 0 :: int] ! j = 6 - int j" if "j < 7" for j
  proof -
    from that have "j \<in> {0, 1, 2, 3, 4, 5, 6}" by auto
    then show ?thesis by auto
  qed
  have lab: "weeks ?wk ! j = digitsOf (nat (dayOfMonth (localDay tz now - 6 + int j))) @ ''th''"
    if "j < 7" for j
  proof -
    have "weeks ?wk ! j = weekLabel now tz ([6, 5, 4, 3, 2, 1, 0] ! j)"
      unfolding wk using that by (simp only: weekly.simps nth_map length_Cons list.size)
    also have "\<dots> = weekLabel now tz (6 - int j)" by (simp only: idx [OF that])
    also have "\<dots> = digitsOf (nat (dayOfMonth (localDay tz now - (6 - int j)))) @ ''th''"
      by (rule weekLabel_day)
    finally show ?thesis by (simp add: algebra_simps)
  qed
  have tot: "caloriesBurnt ?wk ! j = dayTotal (workouts db) uid tz (localDay tz now - 6 + int j)"
    if "j < 7" and c: "tz = 0 \<or> sameUtcDate (entriesOfDay (workouts db) uid tz (localDay tz now - 6 + int j))"
    for j
  proof -
    have d: "localDay tz now - (6 - int j) = localDay tz now - 6 + int j" by simp
    from c have s: "sameUtcDate (entriesOfDay (workouts db) uid tz (localDay tz now - (6 - int j)))"
      unfolding d using sameUtcDate_utc by auto
    have "caloriesBurnt ?wk ! j = weekTotal (workouts db) uid now tz ([6, 5, 4, 3, 2, 1, 0] ! j)"
      unfolding wk using that(1) by (simp only: weekly.simps nth_map length_Cons list.size)
    also have "\<dots> = weekTotal (workouts db) uid now tz (6 - int j)" by (simp only: idx [OF that(1)])
    also have "\<dots> = dayTotal (workouts db) uid tz (localDay tz now - (6 - int j))"
      by (rule weekTotal_day [OF s])
    finally show ?thesis by (simp only: d)
  qed
  have len: "length (weeks ?wk) = 7" "length (caloriesBurnt ?wk) = 7"
    unfolding wk by simp_all
  show ?thesis
    using r len lab tot unfolding tw [symmetric] by blast
qed

text \<open>
  On a server in UTC the last two days are labelled \<^verbatim>\<open>14th\<close> and \<^verbatim>\<open>15th\<close> with 300 and 200
  calories; five and a half hours ahead of UTC, the fourth day is \<^verbatim>\<open>12th\<close> with 70.
\<close>

theorem weekly_series_witness:
  "''u1'' \<in> set (users sampleStore)
   \<and> (\<exists>r. getUserDashboard sampleStore 1700014400000 0 (Some ''u1'') = Inr r
         \<and> length (weeks (totalWeeksCaloriesBurnt r)) = 7
         \<and> length (caloriesBurnt (totalWeeksCaloriesBurnt r)) = 7
         \<and> weeks (totalWeeksCaloriesBurnt r) ! 6 = ''15th''
         \<and> caloriesBurnt (totalWeeksCaloriesBurnt r) ! 6 = 200
         \<and> weeks (totalWeeksCaloriesBurnt r) ! 5 = ''14th''
         \<and> caloriesBurnt (totalWeeksCaloriesBurnt r) ! 5 = 300)
   \<and> sameUtcDate (entriesOfDay (workouts sampleStore) ''u1'' 19800000
         (localDay 19800000 1700014400000 - 6 + int 3))
   \<and> (\<exists>r. getUserDashboard sampleStore 1700014400000 19800000 (Some ''u1'') = Inr r
         \<and> weeks (totalWeeksCaloriesBurnt r) ! 3 = ''12th''
         \<and> caloriesBurnt (totalWeeksCaloriesBurnt r) ! 3 = 70)"
proof -
  have u: "''u1'' \<in> set (users sampleStore)" by (simp add: sampleStore_def)
  have l6: "digitsOf (nat (dayOfMonth (localDay 0 1700014400000 - 6 + int 6))) @ ''th'' = ''15th''"
    and l5: "digitsOf (nat (dayOfMonth (localDay 0 1700014400000 - 6 + int 5))) @ ''th'' = ''14th''"
    and l3: "digitsOf (nat (dayOfMonth (localDay 19800000 1700014400000 - 6 + int 3))) @ ''th'' = ''12th''"
    by code_simp+
  have t6: "dayTotal (workouts sampleStore) ''u1'' 0 (localDay 0 1700014400000 - 6 + int 6) = 200"
    and t5: "dayTotal (workouts sampleStore) ''u1'' 0 (localDay 0 1700014400000 - 6 + int 5) = 300"
    and t3: "dayTotal (workouts sampleStore) ''u1'' 19800000 (localDay 19800000 1700014400000 - 6 + int 3) = 70"
    by code_simp+
  have s3: "sameUtcDate (entriesOfDay (workouts sampleStore) ''u1'' 19800000
      (localDay 19800000 1700014400000 - 6 + int 3))"
    by code_simp
  have n: "(6::nat) < 7" "(5::nat) < 7" "(3::nat) < 7" by simp_all
  from weekly_series [OF u, of 1700014400000 0]
  obtain r where r: "getUserDashboard sampleStore 1700014400000 0 (Some ''u1'') = Inr r"
    "length (weeks (totalWeeksCaloriesBurnt r)) = 7"
    "length (caloriesBurnt (totalWeeksCaloriesBurnt r)) = 7"
    and a: "\<forall>j<7. weeks (totalWeeksCaloriesBurnt r) ! j =
                   digitsOf (nat (dayOfMonth (localDay 0 1700014400000 - 6 + int j))) @ ''th''
              \<and> ((0::int) = 0 \<or> sameUtcDate (entriesOfDay (workouts sampleStore) ''u1'' 0
                     (localDay 0 1700014400000 - 6 + int j))
                  \<longrightarrow> caloriesBurnt (totalWeeksCaloriesBurnt r) ! j =
                   dayTotal (workouts sampleStore) ''u1'' 0 (localDay 0 1700014400000 - 6 + int j))"
    by blast
  from a n(1) have "weeks (totalWeeksCaloriesBurnt r) ! 6 =
        digitsOf (nat (dayOfMonth (localDay 0 1700014400000 - 6 + int 6))) @ ''th''
      \<and> caloriesBurnt (totalWeeksCaloriesBurnt r) ! 6 =
        dayTotal (workouts sampleStore) ''u1'' 0 (localDay 0 1700014400000 - 6 + int 6)"
    by blast
  then have a6: "weeks (totalWeeksCaloriesBurnt r) ! 6 = ''15th''
      \<and> caloriesBurnt (totalWeeksCaloriesBurnt r) ! 6 = 200"
    unfolding l6 t6 .
  from a n(2) have "weeks (totalWeeksCaloriesBurnt r) ! 5 =
        digitsOf (nat (dayOfMonth (localDay 0 1700014400000 - 6 + int 5))) @ ''th''
      \<and> caloriesBurnt (totalWeeksCaloriesBurnt r) ! 5 =
        dayTotal (workouts sampleStore) ''u1'' 0 (localDay 0 1700014400000 - 6 + int 5)"
    by blast
  then have a5: "weeks (totalWeeksCaloriesBurnt r) ! 5 = ''14th''
      \<and> caloriesBurnt (totalWeeksCaloriesBurnt r) ! 5 = 300"
    unfolding l5 t5 .
  from r a6 a5 have one: "\<exists>r. getUserDashboard sampleStore 1700014400000 0 (Some ''u1'') = Inr r
         \<and> length (weeks (totalWeeksCaloriesBurnt r)) = 7
         \<and> length (caloriesBurnt (totalWeeksCaloriesBurnt r)) = 7
         \<and> weeks (totalWeeksCaloriesBurnt r) ! 6 = ''15th''
         \<and> caloriesBurnt (totalWeeksCaloriesBurnt r) ! 6 = 200
         \<and> weeks (totalWeeksCaloriesBurnt r) ! 5 = ''14th''
         \<and> caloriesBurnt (totalWeeksCaloriesBurnt r) ! 5 = 300"
    by blast
  from weekly_series [OF u, of 1700014400000 19800000]
  obtain q where q: "getUserDashboard sampleStore 1700014400000 19800000 (Some ''u1'') = Inr q"
    and b: "\<forall>j<7. weeks (totalWeeksCaloriesBurnt q) ! j =
                   digitsOf (nat (dayOfMonth (localDay 19800000 1700014400000 - 6 + int j))) @ ''th''
              \<and> ((19800000::int) = 0 \<or> sameUtcDate (entriesOfDay (workouts sampleStore) ''u1'' 19800000
                     (localDay 19800000 1700014400000 - 6 + int j))
                  \<longrightarrow> caloriesBurnt (totalWeeksCaloriesBurnt q) ! j =
                   dayTotal (workouts sampleStore) ''u1'' 19800000
                     (localDay 19800000 1700014400000 - 6 + int j))"
    by blast
  from b n(3) s3 have "weeks (totalWeeksCaloriesBurnt q) ! 3 =
        digitsOf (nat (dayOfMonth (localDay 19800000 1700014400000 - 6 + int 3))) @ ''th''
      \<and> caloriesBurnt (totalWeeksCaloriesBurnt q) ! 3 =
        dayTotal (workouts sampleStore) ''u1'' 19800000 (localDay 19800000 1700014400000 - 6 + int 3)"
    by blast
  then have "weeks (totalWeeksCaloriesBurnt q) ! 3 = ''12th''
      \<and> caloriesBurnt (totalWeeksCaloriesBurnt q) ! 3 = 70"
    unfolding l3 t3 .
  with q have two: "\<exists>r. getUserDashboard sampleStore 1700014400000 19800000 (Some ''u1'') = Inr r
         \<and> weeks (totalWeeksCaloriesBurnt r) ! 3 = ''12th''
         \<and> caloriesBurnt (totalWeeksCaloriesBurnt r) ! 3 = 70"
    by blast
  from u one s3 two show ?thesis by blast
qed

end
